theory Spec2Isabelle
  imports Main "HOL-Library.Word"
begin

section \<open>Data model of the Stratum proxy\<close>

text \<open>
  A shallow embedding of \<^verbatim>\<open>meowcoin-proxy-stratum.py\<close>. Python byte strings are lists
  of 8-bit words, Python integers are \<^typ>\<open>int\<close>, Python strings are \<^typ>\<open>string\<close>.
  Every \<^verbatim>\<open>raise\<close> of the source, and every exception of a built-in it calls, is a
  value of \<open>py_error\<close> on the left of a sum.
\<close>

type_synonym byte = "8 word"
type_synonym bytes = "byte list"

text \<open>Sessions are compared by identity only; a session is modelled by a number.\<close>

type_synonym session = nat

datatype py_error =
    ValueError string
  | IndexError
  | KeyError
  | OverflowError
  | AttributeError
  | AssertionError
  | RPCError int string

text \<open>The JSON values the handlers return to a miner.\<close>

datatype json = JNull | JBool bool | JStr string | JList "json list"

text \<open>
  \<^verbatim>\<open>class TemplateState\<close>: the fields of the source, in the source's order.
  \<^verbatim>\<open>Optional[...]\<close> fields are options, \<^verbatim>\<open>None\<close> being \<open>None\<close>.
\<close>

record TemplateState =
  height :: int
  timestamp :: int
  pub_h160 :: "bytes option"
  bits :: "string option"
  target :: "string option"
  headerHash :: "string option"
  version :: int
  prevHash :: "bytes option"
  externalTxs :: "string list"
  seedHash :: "bytes option"
  header :: "bytes option"
  coinbase_tx :: "bytes option"
  coinbase_txid :: "bytes option"
  current_commitment :: "string option"
  new_sessions :: "session set"
  all_sessions :: "session set"
  awaiting_update :: bool
  job_counter :: int
  bits_counter :: int

text \<open>\<^verbatim>\<open>TemplateState()\<close>: the class defaults.\<close>

definition TemplateState_init :: TemplateState where
  "TemplateState_init =
     \<lparr> height = -1, timestamp = -1, pub_h160 = None, bits = None, target = None,
       headerHash = None, version = -1, prevHash = None, externalTxs = [],
       seedHash = None, header = None, coinbase_tx = None, coinbase_txid = None,
       current_commitment = None, new_sessions = {}, all_sessions = {},
       awaiting_update = False, job_counter = 0, bits_counter = 0 \<rparr>"

text \<open>
  Python truthiness of an \<^verbatim>\<open>Optional[bytes]\<close>: \<^verbatim>\<open>None\<close> and the empty byte string
  are false, every other value is true. The source tests \<^verbatim>\<open>not state.pub_h160\<close> and
  \<^verbatim>\<open>not state.seedHash\<close>.
\<close>

fun truthy :: "bytes option \<Rightarrow> bool" where
  "truthy None = False"
| "truthy (Some b) = (b \<noteq> [])"

section \<open>The KAWPOW seed hash in \<^verbatim>\<open>stateUpdater\<close>\<close>

definition KAWPOW_EPOCH_LENGTH :: int where
  "KAWPOW_EPOCH_LENGTH = 7500"

text \<open>\<^verbatim>\<open>bytes(32)\<close>: thirty-two zero bytes.\<close>

definition zero32 :: bytes where
  "zero32 = replicate 32 0"

text \<open>
  The loop
  \<^verbatim>\<open>for _ in range(n): k = sha3.keccak_256(); k.update(seed_hash); seed_hash = k.digest()\<close>
  The hash \<^verbatim>\<open>sha3.keccak_256\<close> belongs to a library outside the repository: it is the
  parameter \<open>keccak\<close>, the function from the bytes fed to \<^verbatim>\<open>update\<close> to the digest.
\<close>

primrec keccak_loop :: "(bytes \<Rightarrow> bytes) \<Rightarrow> nat \<Rightarrow> bytes \<Rightarrow> bytes" where
  "keccak_loop keccak 0 seed_hash = seed_hash"
| "keccak_loop keccak (Suc n) seed_hash = keccak_loop keccak n (keccak seed_hash)"

text \<open>
  \<^verbatim>\<open>seed_hash = bytes(32); for _ in range(height_int//KAWPOW_EPOCH_LENGTH): ...\<close>
  \<^verbatim>\<open>range\<close> of a negative number is empty, as \<open>nat\<close> of a negative integer is \<open>0\<close>;
  \<^verbatim>\<open>//\<close> rounds down, as \<open>div\<close> on \<^typ>\<open>int\<close> does.
\<close>

definition seed_from_zero :: "(bytes \<Rightarrow> bytes) \<Rightarrow> int \<Rightarrow> bytes" where
  "seed_from_zero keccak height_int =
     keccak_loop keccak (nat (height_int div KAWPOW_EPOCH_LENGTH)) zero32"

text \<open>
  The block \<^verbatim>\<open># Generate seed hash #\<close> ... \<^verbatim>\<open># Done with seed hash #\<close> of
  \<^verbatim>\<open>stateUpdater\<close>, with the assignment \<^verbatim>\<open>state.height = height_int\<close> that ends the
  new-block branch. \<open>height_int\<close> is the \<^verbatim>\<open>height\<close> of the node's reply.
\<close>

definition generate_seed_hash :: "(bytes \<Rightarrow> bytes) \<Rightarrow> TemplateState \<Rightarrow> int \<Rightarrow> TemplateState" where
  "generate_seed_hash keccak state height_int =
     (if height state = -1 \<or> height_int > height state then
        (if \<not> truthy (seedHash state) then
           state\<lparr>seedHash := Some (seed_from_zero keccak height_int)\<rparr>
         else if height state mod KAWPOW_EPOCH_LENGTH = 0 then
           (case seedHash state of
              Some old \<Rightarrow> state\<lparr>seedHash := Some (keccak old)\<rparr>
            | None \<Rightarrow> state)
         else state)
      else if height state > height_int then
        (if height state mod KAWPOW_EPOCH_LENGTH - (height state - height_int) < 0 then
           state\<lparr>seedHash := Some (seed_from_zero keccak height_int)\<rparr>
         else state)
      else state)"

text \<open>
  What one call of \<^verbatim>\<open>stateUpdater\<close> does to \<^verbatim>\<open>state.height\<close> and \<^verbatim>\<open>state.seedHash\<close>,
  for a reply of the node that parses and has the height \<open>height_int\<close>: nothing when no
  miner has authorized (\<^verbatim>\<open>if not state.pub_h160: return\<close>) and nothing when the height
  is unchanged; otherwise the seed block, then \<^verbatim>\<open>state.height = height_int\<close>. The
  state is mutated in place, so the two fields keep these values whatever the rest of
  the call does.
\<close>

definition stateUpdater_seed :: "(bytes \<Rightarrow> bytes) \<Rightarrow> TemplateState \<Rightarrow> int \<Rightarrow> TemplateState" where
  "stateUpdater_seed keccak state height_int =
     (if \<not> truthy (pub_h160 state) then state
      else if height state = -1 \<or> height state \<noteq> height_int then
        (generate_seed_hash keccak state height_int)\<lparr>height := height_int\<rparr>
      else state)"

section \<open>Job ids and the history queue\<close>

text \<open>
  \<^verbatim>\<open>hex(i)\<close> of Python: a minus sign for a negative number, the prefix \<^verbatim>\<open>0x\<close>, then
  the lower-case hexadecimal digits of the absolute value with no leading zero. The
  source always takes \<^verbatim>\<open>hex(i)[2:]\<close>.
\<close>

definition hex_digit :: "nat \<Rightarrow> char" where
  "hex_digit d = ''0123456789abcdef'' ! d"

fun hex_digits :: "nat \<Rightarrow> string" where
  "hex_digits n = (if n < 16 then [hex_digit n] else hex_digits (n div 16) @ [hex_digit (n mod 16)])"

declare hex_digits.simps [simp del]

definition py_hex :: "int \<Rightarrow> string" where
  "py_hex i = (if i < 0 then ''-0x'' @ hex_digits (nat (- i)) else ''0x'' @ hex_digits (nat i))"

text \<open>\<^verbatim>\<open>hex(state.job_counter)[2:]\<close>, the job id sent to the miners.\<close>

definition job_id_of :: "int \<Rightarrow> string" where
  "job_id_of counter = drop 2 (py_hex counter)"

text \<open>
  \<^verbatim>\<open>historical_states = [list(), dict()]\<close>: the list of ids, oldest first, and the
  dictionary from id to snapshot.
\<close>

type_synonym old_states = "string list \<times> (string \<rightharpoonup> TemplateState)"

definition empty_old_states :: old_states where
  "empty_old_states = ([], Map.empty)"

text \<open>
  \<^verbatim>\<open>while len(queue[0]) > drop_after: del queue[1][queue[0].pop(0)]\<close>
  \<^verbatim>\<open>pop(0)\<close> of an empty list raises \<^verbatim>\<open>IndexError\<close>; \<^verbatim>\<open>del\<close> of a key the
  dictionary does not hold raises \<^verbatim>\<open>KeyError\<close>.
\<close>

fun drop_old_states :: "string list \<Rightarrow> (string \<rightharpoonup> TemplateState) \<Rightarrow> int \<Rightarrow> py_error + old_states" where
  "drop_old_states ids snapshots drop_after =
     (if int (length ids) > drop_after then
        (case ids of
           [] \<Rightarrow> Inl IndexError
         | oldest # rest \<Rightarrow>
             (case snapshots oldest of
                None \<Rightarrow> Inl KeyError
              | Some _ \<Rightarrow> drop_old_states rest (snapshots(oldest := None)) drop_after))
      else Inr (ids, snapshots))"

declare drop_old_states.simps [simp del]

definition add_old_state_to_queue :: "old_states \<Rightarrow> TemplateState \<Rightarrow> int \<Rightarrow> py_error + old_states" where
  "add_old_state_to_queue queue state drop_after =
     (let job_id = job_id_of (job_counter state) in
      if job_id \<in> dom (snd queue) then Inr queue
      else drop_old_states (fst queue @ [job_id]) ((snd queue)(job_id \<mapsto> state)) drop_after)"


text \<open>
  The queue as the refresher keeps it: no id twice in the list, and the list holds
  exactly the keys of the dictionary.
\<close>

definition queue_wf :: "old_states \<Rightarrow> bool" where
  "queue_wf queue = (distinct (fst queue) \<and> set (fst queue) = dom (snd queue))"

section \<open>Integers and bytes\<close>

text \<open>
  \<^verbatim>\<open>i.to_bytes(length, byteorder)\<close>: \<^verbatim>\<open>OverflowError\<close> for a negative number (the
  source never passes \<^verbatim>\<open>signed=True\<close>) and for one that needs more than \<open>length\<close>
  bytes.
\<close>

datatype byteorder = Little | Big

primrec le_bytes :: "nat \<Rightarrow> int \<Rightarrow> bytes" where
  "le_bytes 0 i = []"
| "le_bytes (Suc n) i = word_of_int (i mod 256) # le_bytes n (i div 256)"

definition to_bytes :: "int \<Rightarrow> nat \<Rightarrow> byteorder \<Rightarrow> py_error + bytes" where
  "to_bytes i len order =
     (if i < 0 \<or> 256 ^ len \<le> i then Inl OverflowError
      else Inr (case order of Little \<Rightarrow> le_bytes len i | Big \<Rightarrow> rev (le_bytes len i)))"

text \<open>\<^verbatim>\<open>b.hex()\<close>: two lower-case hexadecimal digits for each byte.\<close>

definition bytes_hex :: "bytes \<Rightarrow> string" where
  "bytes_hex b = concat (map (\<lambda>x. [hex_digit (unat x div 16), hex_digit (unat x mod 16)]) b)"

section \<open>The Stratum session: \<^verbatim>\<open>mining.subscribe\<close>\<close>

text \<open>
  \<^verbatim>\<open>StratumSession.handle_subscribe\<close>. The handler mutates the shared state before it
  encodes the counter, so the state it leaves is returned beside the result also when
  \<^verbatim>\<open>to_bytes\<close> raises.
\<close>

definition handle_subscribe :: "session \<Rightarrow> TemplateState \<Rightarrow> (py_error + json) \<times> TemplateState" where
  "handle_subscribe self state =
     (let state1 = (if self \<notin> all_sessions state
                    then state\<lparr>new_sessions := insert self (new_sessions state)\<rparr>
                    else state);
          state2 = state1\<lparr>bits_counter := bits_counter state1 + 1\<rparr>
      in (case to_bytes (bits_counter state2) 2 Big of
            Inl e \<Rightarrow> Inl e
          | Inr b \<Rightarrow> Inr (JList [JNull, JStr (bytes_hex b)]),
          state2))"

text \<open>
  The subscribe calls of a run of the process, in the order they arrive: the results
  returned to the miners and the state after the last one.
\<close>

fun subscribe_all :: "session list \<Rightarrow> TemplateState \<Rightarrow> (py_error + json) list \<times> TemplateState" where
  "subscribe_all [] state = ([], state)"
| "subscribe_all (self # rest) state =
     (let (r, state1) = handle_subscribe self state;
          (rs, state2) = subscribe_all rest state1
      in (r # rs, state2))"

section \<open>Double SHA-256 and the Merkle root\<close>

text \<open>
  \<^verbatim>\<open>hashlib.sha256\<close> belongs to the Python library: it is the parameter \<open>sha256\<close>. A
  SHA-256 digest has 256 bits, which is the parameter's result type; \<open>digest\<close> is
  \<^verbatim>\<open>.digest()\<close>, the 32 bytes of that value, most significant first.
\<close>

definition digest :: "256 word \<Rightarrow> bytes" where
  "digest w = rev (le_bytes 32 (uint w))"

text \<open>\<^verbatim>\<open>dsha256(b)\<close>: \<^verbatim>\<open>sha256(sha256(b).digest()).digest()\<close>.\<close>

definition dsha256 :: "(bytes \<Rightarrow> 256 word) \<Rightarrow> bytes \<Rightarrow> bytes" where
  "dsha256 sha256 b = digest (sha256 (digest (sha256 b)))"

text \<open>
  \<^verbatim>\<open>zip(*(iter(txids),)*2)\<close>: both arguments of \<^verbatim>\<open>zip\<close> are the same iterator, so the
  pairs are the elements taken two by two; an element left without a partner is
  dropped.
\<close>

fun pairs :: "'a list \<Rightarrow> ('a \<times> 'a) list" where
  "pairs (l # r # rest) = (l, r) # pairs rest"
| "pairs [l] = []"
| "pairs [] = []"

text \<open>
  The \<^verbatim>\<open>while len(txids) > 1\<close> loop of \<^verbatim>\<open>merkle_from_txids\<close>. Each round appends
  \<^verbatim>\<open>txids[-1]\<close>, whatever the length, and replaces the list by the hashes of its pairs.
\<close>

function merkle_loop :: "(bytes \<Rightarrow> 256 word) \<Rightarrow> bytes list \<Rightarrow> bytes list" where
  "merkle_loop sha256 txids =
     (if length txids > 1
      then merkle_loop sha256
             (map (\<lambda>(l, r). dsha256 sha256 (l @ r)) (pairs (txids @ [last txids])))
      else txids)"
  by pat_completeness auto

lemma length_pairs: "length (pairs xs) = length xs div 2"
  by (induction xs rule: pairs.induct) simp_all

termination merkle_loop
  by (relation "measure (\<lambda>(sha256, txids). length txids)") (auto simp: length_pairs)

declare merkle_loop.simps [simp del]

text \<open>
  \<^verbatim>\<open>merkle_from_txids\<close>. The last line reads \<^verbatim>\<open>txids[0]\<close>, an \<^verbatim>\<open>IndexError\<close> on an
  empty list.
\<close>

definition merkle_from_txids :: "(bytes \<Rightarrow> 256 word) \<Rightarrow> bytes list \<Rightarrow> py_error + bytes" where
  "merkle_from_txids sha256 txids =
     (if txids = [] then Inr (dsha256 sha256 [])
      else if length txids = 1 then Inr (txids ! 0)
      else (case merkle_loop sha256 txids of
              [] \<Rightarrow> Inl IndexError
            | root # _ \<Rightarrow> Inr root))"

subsection \<open>The Merkle fold in the words of the specification\<close>

text \<open>
  ``Pair adjacent elements and replace each pair with \<open>dsha256(left \<parallel> right)\<close>'', for a
  list of even length.
\<close>

fun hash_pairs_spec :: "(bytes \<Rightarrow> 256 word) \<Rightarrow> bytes list \<Rightarrow> bytes list" where
  "hash_pairs_spec sha256 (left # right # rest) =
     dsha256 sha256 (left @ right) # hash_pairs_spec sha256 rest"
| "hash_pairs_spec sha256 [x] = []"
| "hash_pairs_spec sha256 [] = []"

text \<open>
  ``Repeatedly: if odd count, append a copy of the last element; pair adjacent elements
  and replace each pair; repeat until one element remains.'' The specification enters
  the fold with two elements or more; on a shorter list it is the identity.
\<close>

function merkle_fold_spec :: "(bytes \<Rightarrow> 256 word) \<Rightarrow> bytes list \<Rightarrow> bytes list" where
  "merkle_fold_spec sha256 xs =
     (if length xs \<le> 1 then xs
      else merkle_fold_spec sha256
             (hash_pairs_spec sha256 (if odd (length xs) then xs @ [last xs] else xs)))"
  by pat_completeness auto

lemma length_hash_pairs_spec: "length (hash_pairs_spec sha256 xs) = length xs div 2"
  by (induction sha256 xs rule: hash_pairs_spec.induct) simp_all

lemma odd_half_less: "\<not> n \<le> Suc 0 \<Longrightarrow> odd n \<Longrightarrow> Suc (n div 2) < (n::nat)"
  by presburger

termination merkle_fold_spec
  by (relation "measure (\<lambda>(sha256, xs). length xs)")
     (auto simp: length_hash_pairs_spec odd_half_less)

declare merkle_fold_spec.simps [simp del]

section \<open>The Stratum session: \<^verbatim>\<open>mining.authorize\<close>\<close>

text \<open>
  \<^verbatim>\<open>StratumSession.handle_authorize\<close>. \<^verbatim>\<open>base58.b58decode_check\<close> belongs to a library
  outside the repository: it is the parameter \<open>b58decode_check\<close>, which returns the
  decoded bytes without the four checksum bytes (\<open>Inr\<close>) or raises \<^verbatim>\<open>ValueError\<close> with
  a message (\<open>Inl\<close>), as the library does on a wrong checksum or a character outside
  the alphabet. The handler has no \<^verbatim>\<open>try\<close>: what the decoder raises leaves the handler.
  \<^verbatim>\<open>username.split('.')[0]\<close> is the part of the name before the first dot;
  \<^verbatim>\<open>addr_decoded[0]\<close> of an empty byte string raises \<^verbatim>\<open>IndexError\<close>.
\<close>

definition handle_authorize ::
  "(string \<Rightarrow> string + bytes) \<Rightarrow> bool \<Rightarrow> TemplateState \<Rightarrow> string \<Rightarrow> string
     \<Rightarrow> (py_error + json) \<times> TemplateState" where
  "handle_authorize b58decode_check testnet state username password =
     (let address = takeWhile (\<lambda>c. c \<noteq> CHR ''.'') username in
      case b58decode_check address of
        Inl msg \<Rightarrow> (Inl (ValueError msg), state)
      | Inr addr_decoded \<Rightarrow>
          (case addr_decoded of
             [] \<Rightarrow> (Inl IndexError, state)
           | v # payload \<Rightarrow>
               if v \<noteq> (if testnet then 109 else 50)
               then (Inl (RPCError 20 (''Invalid address '' @ address)), state)
               else (Inr (JBool True),
                     if \<not> truthy (pub_h160 state) then state\<lparr>pub_h160 := Some payload\<rparr>
                     else state)))"


text \<open>
  Example data: what \<^verbatim>\<open>base58.b58decode_check\<close> returns for the strings that the
  examples below pass to it. \<^verbatim>\<open>6eVR58s\<close> is the Base58Check encoding of the single byte
  50, \<^verbatim>\<open>3QJmnh\<close> that of the empty byte string; \<^verbatim>\<open>1111\<close> decodes to four zero bytes,
  which are not the checksum of the empty string. Every other string is given the error
  of \<^verbatim>\<open>1111\<close>; no example passes one.
\<close>

definition example_b58decode_check :: "string \<Rightarrow> string + bytes" where
  "example_b58decode_check a =
     (if a = ''M8YKP3nbsrDpc1K7dDWphk6yS3K982QC3U'' then Inr (50 # replicate 20 7)
      else if a = ''M7zVKQKmtV5Rc7erVGVVC3khZbXxsS5HEX'' then Inr (50 # map of_nat [1..<21])
      else if a = ''ksUuUTNbmVZWraYE4yAdK9APZoWo37dyLB'' then Inr (109 # replicate 20 7)
      else if a = ''1111111111111111111114oLvT2'' then Inr (0 # replicate 20 0)
      else if a = ''6eVR58s'' then Inr [50]
      else if a = ''3QJmnh'' then Inr []
      else Inl ''Invalid checksum'')"

section \<open>Hexadecimal input and block assembly\<close>


text \<open>
  \<^verbatim>\<open>bytes.fromhex\<close>: ASCII white space is skipped in front of a byte; a byte is two
  hexadecimal digits, of either case, with nothing between them; anything else raises
  \<^verbatim>\<open>ValueError\<close> (the message of Python also names the position, which is left out).
\<close>

definition is_space :: "char \<Rightarrow> bool" where
  "is_space c = (c \<in> set [CHR '' '', CHR 0x09, CHR 0x0A, CHR 0x0B, CHR 0x0C, CHR 0x0D])"

definition hex_value :: "char \<Rightarrow> nat option" where
  "hex_value c =
     (let n = (of_char c :: nat) in
      if 48 \<le> n \<and> n \<le> 57 then Some (n - 48)
      else if 97 \<le> n \<and> n \<le> 102 then Some (n - 87)
      else if 65 \<le> n \<and> n \<le> 70 then Some (n - 55)
      else None)"

fun bytes_fromhex :: "string \<Rightarrow> py_error + bytes" where
  "bytes_fromhex [] = Inr []"
| "bytes_fromhex (c # cs) =
     (if is_space c then bytes_fromhex cs
      else (case cs of
              [] \<Rightarrow> Inl (ValueError ''non-hexadecimal number found in fromhex() arg'')
            | d # rest \<Rightarrow>
                (case (hex_value c, hex_value d) of
                   (Some hi, Some lo) \<Rightarrow>
                     (case bytes_fromhex rest of
                        Inl e \<Rightarrow> Inl e
                      | Inr b \<Rightarrow> Inr (of_nat (16 * hi + lo) # b))
                 | _ \<Rightarrow> Inl (ValueError ''non-hexadecimal number found in fromhex() arg''))))"





section \<open>The Stratum session: \<^verbatim>\<open>mining.submit\<close>\<close>












section \<open>Seed hash: properties\<close>

lemma keccak_loop_funpow: "keccak_loop keccak n s = (keccak ^^ n) s"
  by (induction n arbitrary: s) (simp_all add: funpow_swap1)

lemma seed_from_zero_funpow:
  "seed_from_zero keccak h = (keccak ^^ nat (h div 7500)) (replicate 32 0)"
  by (simp add: seed_from_zero_def keccak_loop_funpow KAWPOW_EPOCH_LENGTH_def zero32_def)

text \<open>
  First initialization: the state has no seed yet (\<^verbatim>\<open>not state.seedHash\<close>) and the
  height is \<open>-1\<close> or below the reply's. The seed becomes Keccak-256 iterated
  \<open>height_int div 7500\<close> times on 32 zero bytes.
\<close>

lemma first_initialization_seed:
  assumes "truthy (pub_h160 state)"
    and "\<not> truthy (seedHash state)"
    and "height state = -1 \<or> height state < height_int"
  shows "seedHash (stateUpdater_seed keccak state height_int) =
           Some ((keccak ^^ nat (height_int div 7500)) (replicate 32 0))"
    and "height (stateUpdater_seed keccak state height_int) = height_int"
  using assms
  by (auto simp: stateUpdater_seed_def generate_seed_hash_def seed_from_zero_funpow)

lemma first_initialization_examples:
  "seedHash (stateUpdater_seed keccak (TemplateState_init\<lparr>pub_h160 := Some [1]\<rparr>) 0)
     = Some (replicate 32 0)"
  "seedHash (stateUpdater_seed keccak (TemplateState_init\<lparr>pub_h160 := Some [1]\<rparr>) 7500)
     = Some (keccak (replicate 32 0))"
  "seedHash (stateUpdater_seed keccak (TemplateState_init\<lparr>pub_h160 := Some [1]\<rparr>) 15000)
     = Some (keccak (keccak (replicate 32 0)))"
  by (simp_all add: stateUpdater_seed_def generate_seed_hash_def seed_from_zero_funpow
      TemplateState_init_def numeral_2_eq_2)

text \<open>
  Forward progress with a seed already present: the seed is hashed once more exactly
  when the height the state is leaving is a multiple of 7500, whatever the new height.
\<close>

lemma forward_progress_seed:
  assumes "truthy (pub_h160 state)"
    and "seedHash state = Some old" and "old \<noteq> []"
    and "height state \<noteq> -1" and "height state < height_int"
  shows "seedHash (stateUpdater_seed keccak state height_int) =
           (if height state mod 7500 = 0 then Some (keccak old) else Some old)"
  using assms
  by (auto simp: stateUpdater_seed_def generate_seed_hash_def KAWPOW_EPOCH_LENGTH_def)

text \<open>
  Claim C1. The claim asks that one refresher call which takes the state from epoch 0
  to height 7500 leaves the seed at Keccak-256 of 32 zero bytes. Evaluated on the code:
  a state at height 7499 that holds the seed of epoch 0 (32 zero bytes) and a reply of
  height 7500. The forward branch tests the height being left, \<open>7499 mod 7500 \<noteq> 0\<close>,
  so the seed stays 32 zero bytes at height 7500; the initialization branch at the same
  height 7500 gives Keccak-256 of 32 zero bytes, and the forward branch gets there only
  one block later, on the call that leaves height 7500.
\<close>

theorem epoch_crossing_7499_to_7500_keeps_zero_seed:
  "seedHash (stateUpdater_seed keccak
       (TemplateState_init\<lparr>height := 7499, pub_h160 := Some [1], seedHash := Some (replicate 32 0)\<rparr>)
       7500) = Some (replicate 32 0)
   \<and> height (stateUpdater_seed keccak
       (TemplateState_init\<lparr>height := 7499, pub_h160 := Some [1], seedHash := Some (replicate 32 0)\<rparr>)
       7500) = 7500
   \<and> seedHash (stateUpdater_seed keccak (TemplateState_init\<lparr>pub_h160 := Some [1]\<rparr>) 7500)
       = Some (keccak (replicate 32 0))
   \<and> seedHash (stateUpdater_seed keccak
       (TemplateState_init\<lparr>height := 7500, pub_h160 := Some [1], seedHash := Some (replicate 32 0)\<rparr>)
       7501) = Some (keccak (replicate 32 0))"
  by (simp add: stateUpdater_seed_def generate_seed_hash_def seed_from_zero_funpow
      TemplateState_init_def KAWPOW_EPOCH_LENGTH_def)

text \<open>
  Claim C2. A reorganization: the state has a height (it is not the \<open>-1\<close> of a state
  that has seen no reply yet) and the reply's height is strictly below it. The seed is
  recomputed from 32 zero bytes, Keccak-256 iterated \<open>height_int div 7500\<close> times,
  exactly when \<open>height state mod 7500 - (height state - height_int) < 0\<close>; otherwise
  it is left as it was. The height becomes the reply's.
\<close>

theorem reorg_seed_rule:
  assumes "truthy (pub_h160 state)"
    and "height state \<noteq> -1" and "height_int < height state"
  shows "seedHash (stateUpdater_seed keccak state height_int) =
           (if height state mod 7500 - (height state - height_int) < 0
            then Some ((keccak ^^ nat (height_int div 7500)) (replicate 32 0))
            else seedHash state)
         \<and> height (stateUpdater_seed keccak state height_int) = height_int"
  using assms
  by (auto simp: stateUpdater_seed_def generate_seed_hash_def seed_from_zero_funpow
      KAWPOW_EPOCH_LENGTH_def)

text \<open>
  The two reorganizations of the specification's scenario S3, for every hash function
  and every previous seed: 7510 to 7505 keeps the seed, 7502 to 7498 resets it to 32
  zero bytes.
\<close>

theorem reorg_seed_rule_witness:
  "\<forall>keccak seed.
     seedHash (stateUpdater_seed keccak
        (TemplateState_init\<lparr>height := 7510, pub_h160 := Some [1], seedHash := Some seed\<rparr>) 7505)
       = Some seed
     \<and> seedHash (stateUpdater_seed keccak
        (TemplateState_init\<lparr>height := 7502, pub_h160 := Some [1], seedHash := Some seed\<rparr>) 7498)
       = Some (replicate 32 0)"
proof (intro allI conjI)
  fix keccak :: "bytes \<Rightarrow> bytes" and seed :: bytes
  let ?a = "TemplateState_init\<lparr>height := 7510, pub_h160 := Some [1], seedHash := Some seed\<rparr>"
  let ?b = "TemplateState_init\<lparr>height := 7502, pub_h160 := Some [1], seedHash := Some seed\<rparr>"
  have a: "truthy (pub_h160 ?a)" "height ?a \<noteq> -1" "7505 < height ?a"
    by (simp_all add: TemplateState_init_def)
  have b: "truthy (pub_h160 ?b)" "height ?b \<noteq> -1" "7498 < height ?b"
    by (simp_all add: TemplateState_init_def)
  show "seedHash (stateUpdater_seed keccak ?a 7505) = Some seed"
    using reorg_seed_rule [OF a, of keccak] by (simp add: TemplateState_init_def)
  show "seedHash (stateUpdater_seed keccak ?b 7498) = Some (replicate 32 0)"
    using reorg_seed_rule [OF b, of keccak] by (simp add: TemplateState_init_def)
qed

section \<open>History queue: properties\<close>

text \<open>
  The eviction loop on a list without repetition whose ids all have a snapshot: it
  raises nothing, drops ids from the front until at most \<open>c\<close> are left, and deletes
  exactly the snapshots of the dropped ids.
\<close>

lemma drop_old_states_ok:
  assumes "distinct ids" "set ids \<subseteq> dom m" "0 \<le> c"
  shows "drop_old_states ids m c =
           Inr (drop (length ids - nat c) ids, m |` (- set (take (length ids - nat c) ids)))"
  using assms
proof (induction ids arbitrary: m)
  case Nil
  then show ?case by (simp add: drop_old_states.simps)
next
  case (Cons k rest)
  show ?case
  proof (cases "int (length (k # rest)) > c")
    case False
    then have "length (k # rest) - nat c = 0" by simp
    with False show ?thesis by (simp add: drop_old_states.simps)
  next
    case True
    from Cons.prems obtain v where v: "m k = Some v" by auto
    have sub: "set rest \<subseteq> dom (m(k := None))" using Cons.prems by auto
    have d: "distinct rest" using Cons.prems by simp
    have n: "length (k # rest) - nat c = Suc (length rest - nat c)"
      using True Cons.prems(3) by (simp add: Suc_diff_le nat_le_iff)
    have "drop_old_states (k # rest) m c = drop_old_states rest (m(k := None)) c"
      using True v by (subst drop_old_states.simps) simp
    also have "\<dots> = Inr (drop (length rest - nat c) rest,
        (m(k := None)) |` (- set (take (length rest - nat c) rest)))"
      by (rule Cons.IH [OF d sub Cons.prems(3)])
    also have "(m(k := None)) |` (- set (take (length rest - nat c) rest))
        = m |` (- set (take (length (k # rest) - nat c) (k # rest)))"
      unfolding n by (auto simp: restrict_map_def fun_eq_iff)
    finally show ?thesis unfolding n by simp
  qed
qed

lemma add_new_id:
  assumes wf: "queue_wf (ids, m)" and c: "0 \<le> c"
    and new: "job_id_of (job_counter state) \<notin> dom m"
  shows "add_old_state_to_queue (ids, m) state c =
           Inr (drop (Suc (length ids) - nat c) (ids @ [job_id_of (job_counter state)]),
                (m(job_id_of (job_counter state) \<mapsto> state))
                  |` (- set (take (Suc (length ids) - nat c) (ids @ [job_id_of (job_counter state)]))))"
proof -
  let ?k = "job_id_of (job_counter state)"
  have d: "distinct (ids @ [?k])" using wf new by (auto simp: queue_wf_def)
  have s: "set (ids @ [?k]) \<subseteq> dom (m(?k \<mapsto> state))" using wf by (auto simp: queue_wf_def)
  have l: "length (ids @ [?k]) = Suc (length ids)" by simp
  have "add_old_state_to_queue (ids, m) state c = drop_old_states (ids @ [?k]) (m(?k \<mapsto> state)) c"
    using new by (simp add: add_old_state_to_queue_def Let_def)
  then show ?thesis
    unfolding drop_old_states_ok [OF d s c] l .
qed

lemma queue_wf_after_drop:
  assumes "distinct xs" "set xs = dom m"
  shows "queue_wf (drop n xs, m |` (- set (take n xs)))"
proof -
  have "set xs = set (take n xs) \<union> set (drop n xs)"
    by (metis append_take_drop_id set_append)
  moreover have "set (take n xs) \<inter> set (drop n xs) = {}"
    using assms(1) by (metis append_take_drop_id distinct_append)
  ultimately have "set (drop n xs) = dom m \<inter> - set (take n xs)"
    using assms(2) by auto
  then show ?thesis using assms(1) by (simp add: queue_wf_def)
qed

lemma add_keeps_queue_wf:
  assumes wf: "queue_wf queue" and c: "0 \<le> c"
  shows "\<exists>queue'. add_old_state_to_queue queue state c = Inr queue' \<and> queue_wf queue'
           \<and> (int (length (fst queue)) \<le> c \<or> job_id_of (job_counter state) \<notin> dom (snd queue)
                \<longrightarrow> int (length (fst queue')) \<le> c)"
proof (cases "job_id_of (job_counter state) \<in> dom (snd queue)")
  case True
  then show ?thesis using wf by (simp add: add_old_state_to_queue_def)
next
  case False
  obtain ids m where q: "queue = (ids, m)" by (cases queue)
  define k where "k = job_id_of (job_counter state)"
  define xs where "xs = ids @ [k]"
  define n where "n = Suc (length ids) - nat c"
  define m' where "m' = m(k \<mapsto> state)"
  have d: "distinct xs" using wf False q by (auto simp: queue_wf_def xs_def k_def)
  have s: "set xs = dom m'" using wf q by (auto simp: queue_wf_def xs_def m'_def)
  have n: "n = length xs - nat c" by (simp add: n_def xs_def)
  have e: "add_old_state_to_queue queue state c = Inr (drop n xs, m' |` (- set (take n xs)))"
    using add_new_id [of ids m c state] wf c False
    unfolding q xs_def n_def m'_def k_def by simp
  have w: "queue_wf (drop n xs, m' |` (- set (take n xs)))"
    by (rule queue_wf_after_drop [OF d s])
  have b: "int (length (drop n xs)) \<le> c"
    unfolding n using c by simp
  show ?thesis
    unfolding e using w b by simp
qed

lemma empty_old_states_wf: "queue_wf empty_old_states \<and> length (fst empty_old_states) = 0"
  by (simp add: queue_wf_def empty_old_states_def)

text \<open>
  Claim C6. For a queue as the refresher keeps it and a capacity \<open>drop_after \<ge> 0\<close>:
  an insertion never raises; inserting an id the dictionary already holds returns the
  queue unchanged; inserting a new id appends it and then drops ids from the front of
  the list, oldest first, deleting the snapshot of each dropped id and of no other,
  until at most \<open>drop_after\<close> ids are left; and a queue within its capacity is again
  within its capacity after every insertion, with as many snapshots as ids.
\<close>

theorem history_queue_bounded_fifo:
  assumes wf: "queue_wf queue" and c: "0 \<le> drop_after"
  shows "(job_id_of (job_counter state) \<in> dom (snd queue) \<longrightarrow>
            add_old_state_to_queue queue state drop_after = Inr queue)
       \<and> (job_id_of (job_counter state) \<notin> dom (snd queue) \<longrightarrow>
            add_old_state_to_queue queue state drop_after =
              Inr (drop (Suc (length (fst queue)) - nat drop_after)
                     (fst queue @ [job_id_of (job_counter state)]),
                   ((snd queue)(job_id_of (job_counter state) \<mapsto> state))
                     |` (- set (take (Suc (length (fst queue)) - nat drop_after)
                                  (fst queue @ [job_id_of (job_counter state)])))))
       \<and> (int (length (fst queue)) \<le> drop_after \<longrightarrow>
            (\<exists>queue'. add_old_state_to_queue queue state drop_after = Inr queue'
               \<and> queue_wf queue'
               \<and> int (length (fst queue')) \<le> drop_after
               \<and> int (card (dom (snd queue'))) \<le> drop_after))"
proof (intro conjI impI)
  assume "job_id_of (job_counter state) \<in> dom (snd queue)"
  then show "add_old_state_to_queue queue state drop_after = Inr queue"
    by (simp add: add_old_state_to_queue_def)
next
  assume new: "job_id_of (job_counter state) \<notin> dom (snd queue)"
  obtain ids m where q: "queue = (ids, m)" by (cases queue)
  show "add_old_state_to_queue queue state drop_after =
          Inr (drop (Suc (length (fst queue)) - nat drop_after)
                 (fst queue @ [job_id_of (job_counter state)]),
               ((snd queue)(job_id_of (job_counter state) \<mapsto> state))
                 |` (- set (take (Suc (length (fst queue)) - nat drop_after)
                              (fst queue @ [job_id_of (job_counter state)]))))"
    using add_new_id [of ids m drop_after state] wf c new q by simp
next
  assume bounded: "int (length (fst queue)) \<le> drop_after"
  from add_keeps_queue_wf [OF wf c, of state] bounded
  obtain queue' where q': "add_old_state_to_queue queue state drop_after = Inr queue'"
      "queue_wf queue'" "int (length (fst queue')) \<le> drop_after"
    by auto
  have "card (dom (snd queue')) = length (fst queue')"
    using q'(2) by (metis queue_wf_def distinct_card)
  with q' show "\<exists>queue'. add_old_state_to_queue queue state drop_after = Inr queue'
      \<and> queue_wf queue' \<and> int (length (fst queue')) \<le> drop_after
      \<and> int (card (dom (snd queue'))) \<le> drop_after"
    by auto
qed

text \<open>
  A queue of capacity 2 that holds the jobs \<open>0\<close> and \<open>1\<close>: inserting job \<open>2\<close> evicts
  job \<open>0\<close> and its snapshot and keeps job \<open>1\<close>; inserting job \<open>1\<close> again changes
  nothing.
\<close>

theorem history_queue_bounded_fifo_witness:
  "add_old_state_to_queue
      ([''0'', ''1''],
       [''0'' \<mapsto> TemplateState_init, ''1'' \<mapsto> TemplateState_init\<lparr>job_counter := 1\<rparr>])
      (TemplateState_init\<lparr>job_counter := 1\<rparr>) 2
    = Inr ([''0'', ''1''],
           [''0'' \<mapsto> TemplateState_init, ''1'' \<mapsto> TemplateState_init\<lparr>job_counter := 1\<rparr>])
   \<and> (\<exists>queue'. add_old_state_to_queue
          ([''0'', ''1''],
           [''0'' \<mapsto> TemplateState_init, ''1'' \<mapsto> TemplateState_init\<lparr>job_counter := 1\<rparr>])
          (TemplateState_init\<lparr>job_counter := 2\<rparr>) 2 = Inr queue'
        \<and> fst queue' = [''1'', ''2'']
        \<and> snd queue' ''0'' = None
        \<and> snd queue' ''1'' = Some (TemplateState_init\<lparr>job_counter := 1\<rparr>)
        \<and> snd queue' ''2'' = Some (TemplateState_init\<lparr>job_counter := 2\<rparr>)
        \<and> card (dom (snd queue')) \<le> 2)"
proof -
  let ?q = "([''0'', ''1''],
       [''0'' \<mapsto> TemplateState_init, ''1'' \<mapsto> TemplateState_init\<lparr>job_counter := 1\<rparr>])
       :: old_states"
  have wf: "queue_wf ?q" by (auto simp: queue_wf_def)
  have c: "(0::int) \<le> 2" by simp
  have id1: "job_id_of (job_counter (TemplateState_init\<lparr>job_counter := 1\<rparr>)) = ''1''"
    by (simp add: job_id_of_def py_hex_def hex_digits.simps hex_digit_def)
  have id2: "job_id_of (job_counter (TemplateState_init\<lparr>job_counter := 2\<rparr>)) = ''2''"
    by (simp add: job_id_of_def py_hex_def hex_digits.simps hex_digit_def)
  note dup = history_queue_bounded_fifo [OF wf c, of "TemplateState_init\<lparr>job_counter := 1\<rparr>"]
  note new = history_queue_bounded_fifo [OF wf c, of "TemplateState_init\<lparr>job_counter := 2\<rparr>"]
  have a: "add_old_state_to_queue ?q (TemplateState_init\<lparr>job_counter := 1\<rparr>) 2 = Inr ?q"
    using dup unfolding id1 by simp
  have b: "add_old_state_to_queue ?q (TemplateState_init\<lparr>job_counter := 2\<rparr>) 2 =
      Inr ([''1'', ''2''],
           ([''0'' \<mapsto> TemplateState_init, ''1'' \<mapsto> TemplateState_init\<lparr>job_counter := 1\<rparr>,
             ''2'' \<mapsto> TemplateState_init\<lparr>job_counter := 2\<rparr>]) |` (- {''0''}))"
    using new unfolding id2 by (simp add: numeral_2_eq_2)
  have dm: "dom (([''0'' \<mapsto> TemplateState_init, ''1'' \<mapsto> TemplateState_init\<lparr>job_counter := 1\<rparr>,
             ''2'' \<mapsto> TemplateState_init\<lparr>job_counter := 2\<rparr>]) |` (- {''0''})) = {''1'', ''2''}"
    by auto
  show ?thesis
    unfolding a b by simp
qed

section \<open>Hexadecimal and byte encodings: properties\<close>

text \<open>
  \<^verbatim>\<open>bytes.fromhex\<close> reads back what \<^verbatim>\<open>bytes.hex()\<close> wrote, so \<^verbatim>\<open>bytes.hex()\<close> is
  injective, and so is the two-byte big-endian encoding on the numbers it accepts.
\<close>

lemma less_16_cases:
  "n < 16 \<Longrightarrow> n \<in> {0,1,2,3,4,5,6,7,8,9,10,11,12,13,14,15::nat}"
  by simp arith

lemma hex_value_hex_digit: "d < 16 \<Longrightarrow> hex_value (hex_digit d) = Some d"
  by (drule less_16_cases) (auto simp: hex_value_def hex_digit_def)

lemma hex_digit_not_space: "d < 16 \<Longrightarrow> \<not> is_space (hex_digit d)"
  by (drule less_16_cases) (auto simp: is_space_def hex_digit_def)

lemma byte_nibbles:
  fixes x :: byte
  shows "unat x div 16 < 16" "unat x mod 16 < 16"
    "(of_nat (16 * (unat x div 16) + unat x mod 16) :: byte) = x"
proof -
  have "unat x < 256" using unsigned_less [of x] by simp
  then show "unat x div 16 < 16" by simp
  show "unat x mod 16 < 16" by simp
  show "(of_nat (16 * (unat x div 16) + unat x mod 16) :: byte) = x" by simp
qed

lemma bytes_hex_Cons:
  "bytes_hex (x # b) = hex_digit (unat x div 16) # hex_digit (unat x mod 16) # bytes_hex b"
  by (simp add: bytes_hex_def)



text \<open>\<^verbatim>\<open>bytes.fromhex\<close> reads back what \<^verbatim>\<open>.hex()\<close> wrote.\<close>

lemma bytes_fromhex_hex: "bytes_fromhex (bytes_hex b) = Inr b"
proof (induction b)
  case Nil
  show ?case by (simp add: bytes_hex_def)
next
  case (Cons x b)
  show ?case
    unfolding bytes_hex_Cons
    by (simp add: hex_digit_not_space hex_value_hex_digit byte_nibbles Cons.IH)
qed

lemma bytes_hex_inj: "bytes_hex a = bytes_hex b \<Longrightarrow> a = b"
proof -
  assume "bytes_hex a = bytes_hex b"
  then have "bytes_fromhex (bytes_hex a) = bytes_fromhex (bytes_hex b)" by simp
  then show "a = b" by (simp add: bytes_fromhex_hex)
qed

lemma le_bytes_2: "le_bytes 2 v = [word_of_int (v mod 256), word_of_int (v div 256 mod 256)]"
  by (simp add: numeral_2_eq_2)

lemma to_bytes_2_big:
  assumes "0 \<le> v" "v < 65536"
  shows "to_bytes v 2 Big = Inr [word_of_int (v div 256), word_of_int (v mod 256)]"
proof -
  have "v div 256 mod 256 = v div 256" using assms by simp
  then show ?thesis using assms by (simp add: to_bytes_def le_bytes_2)
qed

lemma two_bytes_inj:
  assumes "0 \<le> v" "v < 65536" "0 \<le> w" "w < 65536"
    and "[word_of_int (v div 256), word_of_int (v mod 256)] = [word_of_int (w div 256), word_of_int (w mod 256) :: byte]"
  shows "v = w"
proof -
  have r: "\<And>a b::int. 0 \<le> a \<Longrightarrow> a < 256 \<Longrightarrow> 0 \<le> b \<Longrightarrow> b < 256 \<Longrightarrow>
      (word_of_int a :: byte) = word_of_int b \<Longrightarrow> a = b"
    by (simp add: word_of_int_eq_iff take_bit_eq_mod)
  have "v div 256 = w div 256" using assms by (intro r) auto
  moreover have "v mod 256 = w mod 256" using assms by (intro r) auto
  ultimately show ?thesis by (metis div_mult_mod_eq)
qed


section \<open>\<^verbatim>\<open>mining.subscribe\<close>: properties\<close>

lemma subscribe_state:
  "bits_counter (snd (handle_subscribe self state)) = bits_counter state + 1"
  "new_sessions (snd (handle_subscribe self state)) =
     (if self \<in> all_sessions state then new_sessions state else insert self (new_sessions state))"
  "all_sessions (snd (handle_subscribe self state)) = all_sessions state"
  by (simp_all add: handle_subscribe_def Let_def)

lemma subscribe_result:
  "fst (handle_subscribe self state) =
     (case to_bytes (bits_counter state + 1) 2 Big of
        Inl e \<Rightarrow> Inl e
      | Inr b \<Rightarrow> Inr (JList [JNull, JStr (bytes_hex b)]))"
  by (simp add: handle_subscribe_def Let_def)

lemma subscribe_result_in_range:
  assumes "0 \<le> bits_counter state" "bits_counter state < 65535"
  shows "fst (handle_subscribe self state) =
           Inr (JList [JNull, JStr (bytes_hex [word_of_int ((bits_counter state + 1) div 256),
                                              word_of_int ((bits_counter state + 1) mod 256)])])"
  using assms by (simp add: subscribe_result to_bytes_2_big)

lemma subscribe_result_overflow:
  assumes "65535 \<le> bits_counter state"
  shows "fst (handle_subscribe self state) = Inl OverflowError"
  using assms by (simp add: subscribe_result to_bytes_def)

lemma subscribe_result_negative:
  assumes "bits_counter state < -1"
  shows "fst (handle_subscribe self state) = Inl OverflowError"
  using assms by (simp add: subscribe_result to_bytes_def)

text \<open>
  A run of subscribe calls that stays within the two bytes: call number \<open>i\<close> returns
  the encoding of the starting counter plus \<open>i + 1\<close>.
\<close>

lemma subscribe_all_results:
  assumes "0 \<le> bits_counter state" "bits_counter state + int (length ss) \<le> 65535"
  shows "fst (subscribe_all ss state) =
           map (\<lambda>i. Inr (JList [JNull, JStr (bytes_hex
                  [word_of_int ((bits_counter state + 1 + int i) div 256),
                   word_of_int ((bits_counter state + 1 + int i) mod 256)])]))
               [0..<length ss]"
  using assms
proof (induction ss arbitrary: state)
  case Nil
  then show ?case by simp
next
  case (Cons s ss)
  let ?st1 = "snd (handle_subscribe s state)"
  have c1: "bits_counter ?st1 = bits_counter state + 1" by (rule subscribe_state)
  have r: "fst (handle_subscribe s state) =
      Inr (JList [JNull, JStr (bytes_hex [word_of_int ((bits_counter state + 1) div 256),
                                         word_of_int ((bits_counter state + 1) mod 256)])])"
    using Cons.prems by (intro subscribe_result_in_range) auto
  have ih: "fst (subscribe_all ss ?st1) =
      map (\<lambda>i. Inr (JList [JNull, JStr (bytes_hex
                  [word_of_int ((bits_counter ?st1 + 1 + int i) div 256),
                   word_of_int ((bits_counter ?st1 + 1 + int i) mod 256)])]))
          [0..<length ss]"
    using Cons.prems c1 by (intro Cons.IH) auto
  have unfold: "fst (subscribe_all (s # ss) state) =
      fst (handle_subscribe s state) # fst (subscribe_all ss ?st1)"
    by (simp add: split_beta Let_def)
  show ?case
    unfolding unfold r ih c1
    by (simp add: upt_conv_Cons map_Suc_upt [symmetric] add.assoc del: upt_Suc)
qed

lemma subscribe_all_distinct:
  assumes "0 \<le> bits_counter state" "bits_counter state + int (length ss) \<le> 65535"
  shows "distinct (fst (subscribe_all ss state))"
proof -
  let ?f = "\<lambda>i. (Inr (JList [JNull, JStr (bytes_hex
                  [word_of_int ((bits_counter state + 1 + int i) div 256),
                   word_of_int ((bits_counter state + 1 + int i) mod 256)])]) :: py_error + json)"
  have "inj_on ?f (set [0..<length ss])"
  proof (rule inj_onI)
    fix i j
    assume i: "i \<in> set [0..<length ss]" and j: "j \<in> set [0..<length ss]" and e: "?f i = ?f j"
    from e have "[word_of_int ((bits_counter state + 1 + int i) div 256),
                  word_of_int ((bits_counter state + 1 + int i) mod 256)] =
                 [word_of_int ((bits_counter state + 1 + int j) div 256),
                  word_of_int ((bits_counter state + 1 + int j) mod 256) :: byte]"
      by (auto dest: bytes_hex_inj)
    then have "bits_counter state + 1 + int i = bits_counter state + 1 + int j"
      using assms i j by (intro two_bytes_inj) auto
    then show "i = j" by simp
  qed
  then show ?thesis
    unfolding subscribe_all_results [OF assms] by (simp add: distinct_map)
qed

text \<open>
  The counter is never negative: it is 0 in a new state and every subscribe call adds 1.
\<close>

lemma bits_counter_never_negative:
  "0 \<le> bits_counter TemplateState_init"
  "0 \<le> bits_counter state \<Longrightarrow> 0 \<le> bits_counter (snd (handle_subscribe self state))"
  "0 \<le> bits_counter state \<Longrightarrow> 0 \<le> bits_counter (snd (subscribe_all sessions state))"
proof -
  show "0 \<le> bits_counter TemplateState_init" by (simp add: TemplateState_init_def)
  show step: "0 \<le> bits_counter (snd (handle_subscribe self state))"
    if "0 \<le> bits_counter state" for self state
    using that by (simp add: subscribe_state)
  show "0 \<le> bits_counter state \<Longrightarrow> 0 \<le> bits_counter (snd (subscribe_all sessions state))"
  proof (induction sessions arbitrary: state)
    case Nil
    then show ?case by simp
  next
    case (Cons s sessions)
    from Cons.IH [OF step [OF Cons.prems]] show ?case
      by (simp add: split_beta Let_def)
  qed
qed

text \<open>
  Claim C10. The handler encodes the incremented counter in two big-endian bytes.
  From \<open>bits_counter \<ge> 65535\<close> on, \<^verbatim>\<open>to_bytes\<close> raises \<^verbatim>\<open>OverflowError\<close> and the
  handler returns no extranonce; a call that returns one started from a counter below
  65535. For a counter that counts the earlier subscribes (it starts at 0 and is only
  ever incremented, so it is not negative) with \<open>bits_counter + 1 \<le> 65535\<close> the
  encoding succeeds with exactly two bytes, four hexadecimal digits. The counter is
  incremented in either case.
\<close>

theorem subscribe_two_byte_limit:
  "(65535 \<le> bits_counter state \<longrightarrow> fst (handle_subscribe self state) = Inl OverflowError)
   \<and> ((\<exists>r. fst (handle_subscribe self state) = Inr r) \<longrightarrow> bits_counter state < 65535)
   \<and> (0 \<le> bits_counter state \<and> bits_counter state + 1 \<le> 65535 \<longrightarrow>
        (\<exists>b. to_bytes (bits_counter state + 1) 2 Big = Inr b \<and> length b = 2
            \<and> fst (handle_subscribe self state) = Inr (JList [JNull, JStr (bytes_hex b)])
            \<and> length (bytes_hex b) = 4))
   \<and> bits_counter (snd (handle_subscribe self state)) = bits_counter state + 1"
proof (intro conjI impI)
  assume "65535 \<le> bits_counter state"
  then show "fst (handle_subscribe self state) = Inl OverflowError"
    by (rule subscribe_result_overflow)
next
  assume "\<exists>r. fst (handle_subscribe self state) = Inr r"
  then show "bits_counter state < 65535"
    using subscribe_result_overflow [of state self] by (cases "65535 \<le> bits_counter state") auto
next
  assume "0 \<le> bits_counter state \<and> bits_counter state + 1 \<le> 65535"
  then have r: "0 \<le> bits_counter state + 1" "bits_counter state + 1 < 65536" by auto
  show "\<exists>b. to_bytes (bits_counter state + 1) 2 Big = Inr b \<and> length b = 2
            \<and> fst (handle_subscribe self state) = Inr (JList [JNull, JStr (bytes_hex b)])
            \<and> length (bytes_hex b) = 4"
    by (simp add: subscribe_result to_bytes_2_big [OF r] bytes_hex_def)
next
  show "bits_counter (snd (handle_subscribe self state)) = bits_counter state + 1"
    by (rule subscribe_state)
qed

text \<open>The last counter that fits, 65534, and the first that does not, 65535.\<close>

theorem subscribe_two_byte_limit_witness:
  "fst (handle_subscribe 1 (TemplateState_init\<lparr>bits_counter := 65535\<rparr>)) = Inl OverflowError
   \<and> fst (handle_subscribe 1 (TemplateState_init\<lparr>bits_counter := 65534\<rparr>))
       = Inr (JList [JNull, JStr ''ffff''])
   \<and> bits_counter (snd (handle_subscribe 1 (TemplateState_init\<lparr>bits_counter := 65535\<rparr>))) = 65536"
proof -
  have a: "fst (handle_subscribe 1 (TemplateState_init\<lparr>bits_counter := 65535\<rparr>)) = Inl OverflowError"
    "bits_counter (snd (handle_subscribe 1 (TemplateState_init\<lparr>bits_counter := 65535\<rparr>))) = 65536"
    using subscribe_two_byte_limit [of "TemplateState_init\<lparr>bits_counter := 65535\<rparr>" 1]
    by simp_all
  have "to_bytes 65535 2 Big = Inr [255, 255]"
    by (simp add: to_bytes_def le_bytes_2)
  then have b: "fst (handle_subscribe 1 (TemplateState_init\<lparr>bits_counter := 65534\<rparr>))
       = Inr (JList [JNull, JStr ''ffff''])"
    using subscribe_two_byte_limit [of "TemplateState_init\<lparr>bits_counter := 65534\<rparr>" 1]
    by (simp add: bytes_hex_def hex_digit_def)
  show ?thesis using a b by simp
qed


text \<open>
  Claim C8, as the code has it. A subscribe call increments \<open>bits_counter\<close> by one
  and leaves \<open>all_sessions\<close> alone; it adds the calling session to
  \<open>new_sessions\<close> unless the session is already in \<open>all_sessions\<close>; while the
  counter before the call is in \<open>0 .. 65534\<close> it returns \<^verbatim>\<open>[null, extranonce]\<close>
  with the incremented counter as two big-endian bytes in hexadecimal, \<^verbatim>\<open>"0001"\<close> for
  the first subscriber; and the extranonces of a run of subscribes that stays in that
  range are pairwise different.
\<close>

theorem subscribe_counter_sessions_extranonce:
  "bits_counter (snd (handle_subscribe self state)) = bits_counter state + 1
   \<and> new_sessions (snd (handle_subscribe self state)) =
        (if self \<in> all_sessions state then new_sessions state
         else insert self (new_sessions state))
   \<and> all_sessions (snd (handle_subscribe self state)) = all_sessions state
   \<and> (0 \<le> bits_counter state \<and> bits_counter state < 65535 \<longrightarrow>
        fst (handle_subscribe self state) =
          Inr (JList [JNull, JStr (bytes_hex [word_of_int ((bits_counter state + 1) div 256),
                                             word_of_int ((bits_counter state + 1) mod 256)])]))
   \<and> (bits_counter state = 0 \<longrightarrow>
        fst (handle_subscribe self state) = Inr (JList [JNull, JStr ''0001'']))
   \<and> (0 \<le> bits_counter state \<and> bits_counter state + int (length sessions) \<le> 65535 \<longrightarrow>
        distinct (fst (subscribe_all sessions state))
        \<and> fst (subscribe_all sessions state) =
            map (\<lambda>i. Inr (JList [JNull, JStr (bytes_hex
                   [word_of_int ((bits_counter state + 1 + int i) div 256),
                    word_of_int ((bits_counter state + 1 + int i) mod 256)])]))
                [0..<length sessions])"
proof (intro conjI impI)
  show "bits_counter (snd (handle_subscribe self state)) = bits_counter state + 1"
    "new_sessions (snd (handle_subscribe self state)) =
        (if self \<in> all_sessions state then new_sessions state
         else insert self (new_sessions state))"
    "all_sessions (snd (handle_subscribe self state)) = all_sessions state"
    by (rule subscribe_state)+
next
  assume "0 \<le> bits_counter state \<and> bits_counter state < 65535"
  then show "fst (handle_subscribe self state) =
          Inr (JList [JNull, JStr (bytes_hex [word_of_int ((bits_counter state + 1) div 256),
                                             word_of_int ((bits_counter state + 1) mod 256)])])"
    by (intro subscribe_result_in_range) auto
next
  assume z: "bits_counter state = 0"
  have "to_bytes 1 2 Big = Inr [0, 1]" by (simp add: to_bytes_def le_bytes_2)
  then show "fst (handle_subscribe self state) = Inr (JList [JNull, JStr ''0001''])"
    by (simp add: subscribe_result z bytes_hex_def hex_digit_def)
next
  assume r: "0 \<le> bits_counter state \<and> bits_counter state + int (length sessions) \<le> 65535"
  then show "distinct (fst (subscribe_all sessions state))"
    by (intro subscribe_all_distinct) auto
  from r show "fst (subscribe_all sessions state) =
            map (\<lambda>i. Inr (JList [JNull, JStr (bytes_hex
                   [word_of_int ((bits_counter state + 1 + int i) div 256),
                    word_of_int ((bits_counter state + 1 + int i) mod 256)])]))
                [0..<length sessions]"
    by (intro subscribe_all_results) auto
qed

text \<open>
  The first subscriber of a process, a subscriber at counter 258, and three
  subscribes in a row (the third from the session of the first).
\<close>

theorem subscribe_counter_sessions_extranonce_witness:
  "fst (handle_subscribe 7 TemplateState_init) = Inr (JList [JNull, JStr ''0001''])
   \<and> bits_counter (snd (handle_subscribe 7 TemplateState_init)) = 1
   \<and> new_sessions (snd (handle_subscribe 7 TemplateState_init)) = {7}
   \<and> fst (handle_subscribe 8 (TemplateState_init\<lparr>bits_counter := 258\<rparr>))
        = Inr (JList [JNull, JStr ''0103''])
   \<and> fst (subscribe_all [7, 8, 7] TemplateState_init)
        = [Inr (JList [JNull, JStr ''0001'']), Inr (JList [JNull, JStr ''0002'']),
           Inr (JList [JNull, JStr ''0003''])]"
proof -
  note a = subscribe_counter_sessions_extranonce
    [where state = TemplateState_init and self = 7 and sessions = "[7, 8, 7]"]
  note b = subscribe_counter_sessions_extranonce
    [where state = "TemplateState_init\<lparr>bits_counter := 258\<rparr>" and self = 8 and sessions = "[]"]
  have i: "bits_counter TemplateState_init = 0" "new_sessions TemplateState_init = {}"
    "all_sessions TemplateState_init = {}"
    by (simp_all add: TemplateState_init_def)
  have "fst (handle_subscribe 8 (TemplateState_init\<lparr>bits_counter := 258\<rparr>))
        = Inr (JList [JNull, JStr ''0103''])"
    using b by (simp add: bytes_hex_def hex_digit_def)
  then show ?thesis using a
    by (simp add: i bytes_hex_def hex_digit_def del: subscribe_all.simps)
qed

text \<open>
  Claim C8 as the specification states it fails twice. Session 1 has subscribed and the
  refresher has moved it to \<open>all_sessions\<close>; when it subscribes again it is not added
  to \<open>new_sessions\<close>. And at \<open>bits_counter = 65535\<close> the call returns no extranonce
  but raises \<^verbatim>\<open>OverflowError\<close>.
\<close>

theorem subscribe_resubscribe_counterexample:
  "1 \<in> all_sessions (TemplateState_init\<lparr>all_sessions := {1}, bits_counter := 1\<rparr>)
   \<and> 1 \<notin> new_sessions (snd (handle_subscribe 1
               (TemplateState_init\<lparr>all_sessions := {1}, bits_counter := 1\<rparr>)))
   \<and> fst (handle_subscribe 1 (TemplateState_init\<lparr>bits_counter := 65535\<rparr>)) = Inl OverflowError"
  by (simp add: handle_subscribe_def Let_def to_bytes_def TemplateState_init_def)

section \<open>Merkle root: properties\<close>

lemma length_le_bytes: "length (le_bytes n i) = n"
  by (induction n arbitrary: i) simp_all

lemma length_digest: "length (digest w) = 32"
  by (simp add: digest_def length_le_bytes)

lemma length_dsha256: "length (dsha256 sha256 b) = 32"
  by (simp add: dsha256_def length_digest)

text \<open>
  One round of the source's loop is one round of the specification's fold: on a list
  of even length the copy that the source appends is left without a partner and
  dropped.
\<close>

lemma pairs_snoc_even: "even (length xs) \<Longrightarrow> pairs (xs @ [y]) = pairs xs"
  by (induction xs rule: pairs.induct) simp_all

lemma hash_pairs_spec_pairs:
  "hash_pairs_spec sha256 xs = map (\<lambda>(l, r). dsha256 sha256 (l @ r)) (pairs xs)"
  by (induction sha256 xs rule: hash_pairs_spec.induct) simp_all

lemma merkle_round:
  "map (\<lambda>(l, r). dsha256 sha256 (l @ r)) (pairs (txids @ [last txids]))
     = hash_pairs_spec sha256 (if odd (length txids) then txids @ [last txids] else txids)"
  by (simp add: hash_pairs_spec_pairs pairs_snoc_even)

lemma merkle_loop_is_fold: "merkle_loop sha256 txids = merkle_fold_spec sha256 txids"
proof (induction sha256 txids rule: merkle_loop.induct)
  case (1 sha256 txids)
  show ?case
  proof (cases "length txids > 1")
    case True
    have "merkle_loop sha256 txids = merkle_loop sha256
             (map (\<lambda>(l, r). dsha256 sha256 (l @ r)) (pairs (txids @ [last txids])))"
      using True by (subst merkle_loop.simps) simp
    also have "\<dots> = merkle_fold_spec sha256
             (map (\<lambda>(l, r). dsha256 sha256 (l @ r)) (pairs (txids @ [last txids])))"
      using True by (rule "1.IH")
    also have "\<dots> = merkle_fold_spec sha256 txids"
      using True unfolding merkle_round by (subst (2) merkle_fold_spec.simps) simp
    finally show ?thesis .
  next
    case False
    then show ?thesis
      by (subst merkle_loop.simps, subst merkle_fold_spec.simps) simp
  qed
qed

lemma merkle_fold_spec_single:
  "2 \<le> length xs \<Longrightarrow> \<exists>root. merkle_fold_spec sha256 xs = [root] \<and> length root = 32"
proof (induction sha256 xs rule: merkle_fold_spec.induct)
  case (1 sha256 xs)
  let ?ys = "hash_pairs_spec sha256 (if odd (length xs) then xs @ [last xs] else xs)"
  have step: "merkle_fold_spec sha256 xs = merkle_fold_spec sha256 ?ys"
    using "1.prems" by (subst merkle_fold_spec.simps) simp
  have len: "length ?ys = (length xs + 1) div 2"
    by (auto simp: length_hash_pairs_spec elim: oddE)
  show ?case
  proof (cases "2 \<le> length ?ys")
    case True
    then show ?thesis using "1.IH" "1.prems" step by simp
  next
    case False
    with len "1.prems" have l1: "length ?ys = 1" by linarith
    then obtain root where r: "?ys = [root]" by (cases ?ys) auto
    have "root \<in> set ?ys" using r by simp
    then have "length root = 32"
      unfolding hash_pairs_spec_pairs by (auto simp: length_dsha256)
    moreover have "merkle_fold_spec sha256 ?ys = [root]"
      unfolding r by (subst merkle_fold_spec.simps) simp
    ultimately show ?thesis using step by simp
  qed
qed


text \<open>
  Claim C3. \<^verbatim>\<open>merkle_from_txids\<close> returns \<open>dsha256\<close> of the empty byte string for
  the empty list and the sole element for a singleton. For a list of two elements or
  more it raises nothing and returns the single element that the specification's fold
  ends with (append a copy of the last element when the count is odd, hash the
  adjacent pairs, repeat), a value of 32 bytes.
\<close>

theorem merkle_from_txids_fold:
  "merkle_from_txids sha256 [] = Inr (dsha256 sha256 [])
   \<and> merkle_from_txids sha256 [x] = Inr x
   \<and> (2 \<le> length txids \<longrightarrow>
        (\<exists>root. merkle_fold_spec sha256 txids = [root] \<and> length root = 32
           \<and> merkle_from_txids sha256 txids = Inr root))"
proof (intro conjI impI)
  show "merkle_from_txids sha256 [] = Inr (dsha256 sha256 [])"
    by (simp add: merkle_from_txids_def)
  show "merkle_from_txids sha256 [x] = Inr x"
    by (simp add: merkle_from_txids_def)
next
  assume two: "2 \<le> length txids"
  from merkle_fold_spec_single [OF two, of sha256]
  obtain root where r: "merkle_fold_spec sha256 txids = [root]" "length root = 32"
    by blast
  have "merkle_from_txids sha256 txids = Inr root"
    using two r(1) by (auto simp: merkle_from_txids_def merkle_loop_is_fold)
  with r show "\<exists>root. merkle_fold_spec sha256 txids = [root] \<and> length root = 32
           \<and> merkle_from_txids sha256 txids = Inr root"
    by blast
qed

text \<open>Lists of two, three and four ids, for every hash function.\<close>

theorem merkle_from_txids_fold_witness:
  "\<forall>sha256 a b c d.
     merkle_from_txids sha256 [a, b] = Inr (dsha256 sha256 (a @ b))
     \<and> merkle_from_txids sha256 [a, b, c]
         = Inr (dsha256 sha256 (dsha256 sha256 (a @ b) @ dsha256 sha256 (c @ c)))
     \<and> merkle_from_txids sha256 [a, b, c, d]
         = Inr (dsha256 sha256 (dsha256 sha256 (a @ b) @ dsha256 sha256 (c @ d)))"
proof (intro allI conjI)
  fix sha256 :: "bytes \<Rightarrow> 256 word" and a b c d :: bytes
  have f2: "merkle_fold_spec sha256 [a, b] = [dsha256 sha256 (a @ b)]"
    by (simp add: merkle_fold_spec.simps)
  have f3: "merkle_fold_spec sha256 [a, b, c]
      = [dsha256 sha256 (dsha256 sha256 (a @ b) @ dsha256 sha256 (c @ c))]"
    by (simp add: merkle_fold_spec.simps)
  have f4: "merkle_fold_spec sha256 [a, b, c, d]
      = [dsha256 sha256 (dsha256 sha256 (a @ b) @ dsha256 sha256 (c @ d))]"
    by (simp add: merkle_fold_spec.simps)
  show "merkle_from_txids sha256 [a, b] = Inr (dsha256 sha256 (a @ b))"
    using merkle_from_txids_fold [of sha256 a "[a, b]"] by (simp add: f2)
  show "merkle_from_txids sha256 [a, b, c]
         = Inr (dsha256 sha256 (dsha256 sha256 (a @ b) @ dsha256 sha256 (c @ c)))"
    using merkle_from_txids_fold [of sha256 a "[a, b, c]"] by (simp add: f3)
  show "merkle_from_txids sha256 [a, b, c, d]
         = Inr (dsha256 sha256 (dsha256 sha256 (a @ b) @ dsha256 sha256 (c @ d)))"
    using merkle_from_txids_fold [of sha256 a "[a, b, c, d]"] by (simp add: f4)
qed

section \<open>\<^verbatim>\<open>mining.authorize\<close>: properties\<close>








text \<open>
  Claim C7, as the code has it. An address that decodes to a version byte other than
  the expected one (50 on mainnet, 109 on testnet) is answered with RPC error 20 and
  the message \<^verbatim>\<open>Invalid address <addr>\<close>, and one that decodes to the expected version
  byte with \<^verbatim>\<open>true\<close>. An address that fails Base58Check decoding is not answered
  with error 20: the decoder's \<^verbatim>\<open>ValueError\<close> leaves the handler as it is; and an
  address that decodes to no bytes at all raises \<^verbatim>\<open>IndexError\<close>. Every call that
  fails leaves the state unchanged.
\<close>

theorem authorize_replies:
  "(b58decode_check (takeWhile (\<lambda>c. c \<noteq> CHR ''.'') username) = Inl msg \<longrightarrow>
      handle_authorize b58decode_check testnet state username password
        = (Inl (ValueError msg), state))
   \<and> (b58decode_check (takeWhile (\<lambda>c. c \<noteq> CHR ''.'') username) = Inr [] \<longrightarrow>
      handle_authorize b58decode_check testnet state username password
        = (Inl IndexError, state))
   \<and> (b58decode_check (takeWhile (\<lambda>c. c \<noteq> CHR ''.'') username) = Inr (v # payload)
        \<and> v \<noteq> (if testnet then 109 else 50) \<longrightarrow>
      handle_authorize b58decode_check testnet state username password
        = (Inl (RPCError 20 (''Invalid address '' @ takeWhile (\<lambda>c. c \<noteq> CHR ''.'') username)),
           state))
   \<and> (b58decode_check (takeWhile (\<lambda>c. c \<noteq> CHR ''.'') username) = Inr (v # payload)
        \<and> v = (if testnet then 109 else 50) \<longrightarrow>
      fst (handle_authorize b58decode_check testnet state username password)
        = Inr (JBool True))"
  by (simp add: handle_authorize_def Let_def)

text \<open>
  A Bitcoin address (version byte 0) on mainnet, a mainnet address on mainnet and on
  testnet, a testnet address on testnet, a wrong checksum, and the encoding of the
  empty byte string.
\<close>

theorem authorize_replies_witness:
  "handle_authorize example_b58decode_check False TemplateState_init
       ''1111111111111111111114oLvT2.rig'' ''x''
     = (Inl (RPCError 20 ''Invalid address 1111111111111111111114oLvT2''), TemplateState_init)
   \<and> fst (handle_authorize example_b58decode_check False TemplateState_init
          ''M8YKP3nbsrDpc1K7dDWphk6yS3K982QC3U.rig'' ''x'') = Inr (JBool True)
   \<and> fst (handle_authorize example_b58decode_check True TemplateState_init
          ''M8YKP3nbsrDpc1K7dDWphk6yS3K982QC3U'' ''x'')
     = Inl (RPCError 20 ''Invalid address M8YKP3nbsrDpc1K7dDWphk6yS3K982QC3U'')
   \<and> fst (handle_authorize example_b58decode_check True TemplateState_init
          ''ksUuUTNbmVZWraYE4yAdK9APZoWo37dyLB'' ''x'') = Inr (JBool True)
   \<and> fst (handle_authorize example_b58decode_check False TemplateState_init ''1111'' ''x'')
     = Inl (ValueError ''Invalid checksum'')
   \<and> fst (handle_authorize example_b58decode_check False TemplateState_init ''3QJmnh'' ''x'')
     = Inl IndexError"
proof -
  note r = authorize_replies [where b58decode_check = example_b58decode_check
      and state = TemplateState_init and password = "''x''"]
  have 1: "handle_authorize example_b58decode_check False TemplateState_init
       ''1111111111111111111114oLvT2.rig'' ''x''
     = (Inl (RPCError 20 ''Invalid address 1111111111111111111114oLvT2''), TemplateState_init)"
    using r [where username = "''1111111111111111111114oLvT2.rig''" and testnet = False
        and v = 0 and payload = "replicate 20 0"]
    by (simp add: example_b58decode_check_def)
  have 2: "fst (handle_authorize example_b58decode_check False TemplateState_init
          ''M8YKP3nbsrDpc1K7dDWphk6yS3K982QC3U.rig'' ''x'') = Inr (JBool True)"
    using r [where username = "''M8YKP3nbsrDpc1K7dDWphk6yS3K982QC3U.rig''" and testnet = False
        and v = 50 and payload = "replicate 20 7"]
    by (simp add: example_b58decode_check_def)
  have 3: "fst (handle_authorize example_b58decode_check True TemplateState_init
          ''M8YKP3nbsrDpc1K7dDWphk6yS3K982QC3U'' ''x'')
     = Inl (RPCError 20 ''Invalid address M8YKP3nbsrDpc1K7dDWphk6yS3K982QC3U'')"
    using r [where username = "''M8YKP3nbsrDpc1K7dDWphk6yS3K982QC3U''" and testnet = True
        and v = 50 and payload = "replicate 20 7"]
    by (simp add: example_b58decode_check_def)
  have 4: "fst (handle_authorize example_b58decode_check True TemplateState_init
          ''ksUuUTNbmVZWraYE4yAdK9APZoWo37dyLB'' ''x'') = Inr (JBool True)"
    using r [where username = "''ksUuUTNbmVZWraYE4yAdK9APZoWo37dyLB''" and testnet = True
        and v = 109 and payload = "replicate 20 7"]
    by (simp add: example_b58decode_check_def)
  have 5: "fst (handle_authorize example_b58decode_check False TemplateState_init ''1111'' ''x'')
     = Inl (ValueError ''Invalid checksum'')"
    using r [where username = "''1111''" and testnet = False and msg = "''Invalid checksum''"]
    by (simp add: example_b58decode_check_def)
  have 6: "fst (handle_authorize example_b58decode_check False TemplateState_init ''3QJmnh'' ''x'')
     = Inl IndexError"
    using r [where username = "''3QJmnh''" and testnet = False]
    by (simp add: example_b58decode_check_def)
  show ?thesis using 1 2 3 4 5 6 by simp
qed

text \<open>
  Claim C7 as the specification states it fails: the address \<^verbatim>\<open>1111\<close> does not pass
  the checksum, and the miner is not answered with RPC error 20.
\<close>

theorem authorize_bad_checksum_counterexample:
  "fst (handle_authorize example_b58decode_check False TemplateState_init ''1111'' ''x'')
     = Inl (ValueError ''Invalid checksum'')
   \<and> fst (handle_authorize example_b58decode_check False TemplateState_init ''1111'' ''x'')
     \<noteq> Inl (RPCError 20 ''Invalid address 1111'')"
  by (simp add: handle_authorize_def example_b58decode_check_def)

section \<open>\<^verbatim>\<open>mining.submit\<close>: properties\<close>









end
